theory Spec2Isabelle
  imports Main
begin

section \<open>Data model (models.py)\<close>

text \<open>
  The class \<open>User\<close> of models.py: \<open>id: Optional[int]\<close> (the primary key, \<open>None\<close> until the
  store assigns it), \<open>username: str\<close>, \<open>email: str\<close>. The field \<open>id\<close> is written \<open>id'\<close>,
  since \<open>id\<close> is the identity function of HOL.
\<close>

record User =
  id' :: "int option"
  username :: string
  email :: string

text \<open>
  The table \<open>user\<close> behind the engine: one tuple \<open>(id, username, email)\<close> per row, in
  insertion order. The column \<open>id\<close> is \<open>INTEGER NOT NULL PRIMARY KEY\<close>, so it is an \<open>int\<close>
  here and not an option. Python integers are unbounded, so \<open>int\<close>. The
  store holds signed 64-bit integers: an identifier a caller passes is converted by the
  driver (\<open>bind_parameter\<close> below), while the keys the store assigns are taken to stay
  below that limit.
\<close>

type_synonym row = "int \<times> string \<times> string"

type_synonym engine = "row list"

text \<open>
  The exceptions the data-access functions can raise: \<open>NoResultFound\<close> and
  \<open>MultipleResultsFound\<close> come from \<open>Result.one()\<close>, \<open>AttributeError\<close> from setting an
  attribute on \<open>None\<close>, \<open>UnmappedInstanceError\<close> from handing \<open>None\<close> to \<open>Session.add\<close> or
  \<open>Session.delete\<close>, \<open>InvalidRequestError\<close> from deleting an instance that is not
  persisted or refreshing one whose row is gone, and \<open>OverflowError\<close> from the sqlite3
  driver when a statement parameter does not fit a signed 64-bit integer.
\<close>

datatype error =
    NoResultFound
  | MultipleResultsFound
  | AttributeError
  | UnmappedInstanceError
  | InvalidRequestError
  | OverflowError

section \<open>The store: the statements the session emits\<close>

definition row_id :: "row \<Rightarrow> int" where
  "row_id r = fst r"

definition keys :: "engine \<Rightarrow> int list" where
  "keys db = map row_id db"

text \<open>The primary-key constraint of the table (models.py, line 6).\<close>

definition pk_unique :: "engine \<Rightarrow> bool" where
  "pk_unique db = distinct (keys db)"

text \<open>Building the mapped object from a row.\<close>

definition load :: "row \<Rightarrow> User" where
  "load r = (case r of (k, n, e) \<Rightarrow> \<lparr>id' = Some k, username = n, email = e\<rparr>)"

text \<open>\<open>SELECT ... FROM user WHERE user.id = k\<close>.\<close>

definition select_where_id :: "int \<Rightarrow> engine \<Rightarrow> User list" where
  "select_where_id k db = map load (filter (\<lambda>r. row_id r = k) db)"

text \<open>
  The key an \<open>INSERT\<close> without an explicit id receives: 1 in an empty table, otherwise one
  more than the largest key in use.
\<close>

definition next_rowid :: "engine \<Rightarrow> int" where
  "next_rowid db =
     (case keys db of [] \<Rightarrow> 1 | k # ks \<Rightarrow> fold max ks k + 1)"

text \<open>\<open>INSERT INTO user (username, email) VALUES (n, e)\<close>; returns the assigned key.\<close>

definition insert_row :: "string \<Rightarrow> string \<Rightarrow> engine \<Rightarrow> int \<times> engine" where
  "insert_row n e db = (let k = next_rowid db in (k, db @ [(k, n, e)]))"

text \<open>\<open>UPDATE user SET username = n, email = e WHERE user.id = k\<close>.\<close>

definition update_row :: "int \<Rightarrow> string \<Rightarrow> string \<Rightarrow> engine \<Rightarrow> engine" where
  "update_row k n e db = map (\<lambda>r. if row_id r = k then (k, n, e) else r) db"

text \<open>\<open>DELETE FROM user WHERE user.id = k\<close>.\<close>

definition delete_row :: "int \<Rightarrow> engine \<Rightarrow> engine" where
  "delete_row k db = filter (\<lambda>r. row_id r \<noteq> k) db"

section \<open>The session\<close>

text \<open>\<open>Result.one()\<close>: exactly one row, or an exception.\<close>

definition one :: "'a list \<Rightarrow> error + 'a" where
  "one xs = (case xs of [] \<Rightarrow> Inl NoResultFound
                      | [x] \<Rightarrow> Inr x
                      | _ \<Rightarrow> Inl MultipleResultsFound)"

text \<open>\<open>Session.get(User, k)\<close>: the instance with that primary key, or \<open>None\<close>.\<close>

definition session_get :: "engine \<Rightarrow> int \<Rightarrow> User option" where
  "session_get db k = (case select_where_id k db of [] \<Rightarrow> None | u # _ \<Rightarrow> Some u)"

text \<open>Python truthiness of an \<open>Optional[str]\<close>: \<open>None\<close> and the empty string are falsy.\<close>

fun truthy :: "string option \<Rightarrow> bool" where
  "truthy None = False"
| "truthy (Some s) = (s \<noteq> [])"

text \<open>
  \<open>user.username = v\<close> and \<open>user.email = v\<close>, where \<open>user\<close> may be \<open>None\<close>: assigning an
  attribute on \<open>None\<close> raises \<open>AttributeError\<close>.
\<close>

definition set_username :: "User option \<Rightarrow> string \<Rightarrow> error + User option" where
  "set_username user v =
     (case user of None \<Rightarrow> Inl AttributeError
                 | Some u \<Rightarrow> Inr (Some (u\<lparr>username := v\<rparr>)))"

definition set_email :: "User option \<Rightarrow> string \<Rightarrow> error + User option" where
  "set_email user v =
     (case user of None \<Rightarrow> Inl AttributeError
                 | Some u \<Rightarrow> Inr (Some (u\<lparr>email := v\<rparr>)))"

text \<open>\<open>Session.add(user)\<close>: \<open>None\<close> is not a mapped instance.\<close>

definition session_add :: "User option \<Rightarrow> error + User" where
  "session_add user = (case user of None \<Rightarrow> Inl UnmappedInstanceError | Some u \<Rightarrow> Inr u)"

text \<open>
  \<open>Session.delete(user)\<close>: \<open>None\<close> is not a mapped instance, and an instance without a
  primary key is not persisted. The result is the key whose row the commit will delete.
\<close>

definition session_delete :: "User option \<Rightarrow> error + int" where
  "session_delete user =
     (case user of None \<Rightarrow> Inl UnmappedInstanceError
                 | Some u \<Rightarrow> (case id' u of None \<Rightarrow> Inl InvalidRequestError
                                           | Some k \<Rightarrow> Inr k))"

text \<open>
  \<open>Session.commit()\<close> after \<open>add\<close>: an instance without a primary key is inserted, a
  persistent one is written back to its row. The result is the instance's key and the new
  table.
\<close>

definition commit_add :: "User \<Rightarrow> engine \<Rightarrow> int \<times> engine" where
  "commit_add u db =
     (case id' u of None \<Rightarrow> insert_row (username u) (email u) db
                  | Some k \<Rightarrow> (k, update_row k (username u) (email u) db))"

text \<open>\<open>Session.refresh(user)\<close>: reload the instance from its row.\<close>

definition session_refresh :: "int \<Rightarrow> engine \<Rightarrow> error + User" where
  "session_refresh k db =
     (case select_where_id k db of [] \<Rightarrow> Inl InvalidRequestError | u # _ \<Rightarrow> Inr u)"

section \<open>The data-access layer (crud.py)\<close>

text \<open>
  Each function takes the table and returns its result, or the exception it raises,
  together with the table afterwards. An exception leaves the \<open>with\<close> block before
  \<open>commit\<close>, so the table is then the one the function was called with. The
  parameters \<open>username\<close> and \<open>email\<close> are written \<open>uname\<close> and \<open>mail\<close>, the names
  of the record fields being taken. crud.py names \<open>Optional\<close> in the signature of
  \<open>update_user\<close> without importing it; the functions are modelled as they are written,
  as if the name were bound.
\<close>

definition create_user :: "string \<Rightarrow> string \<Rightarrow> engine \<Rightarrow> (error + User) \<times> engine" where
  "create_user uname mail db =
     (let user = \<lparr>id' = None, username = uname, email = mail\<rparr> in
      case session_add (Some user) of
        Inl ex \<Rightarrow> (Inl ex, db)
      | Inr u \<Rightarrow>
          (case commit_add u db of (k, db') \<Rightarrow>
             (case session_refresh k db' of
                Inl ex \<Rightarrow> (Inl ex, db')
              | Inr u' \<Rightarrow> (Inr u', db'))))"

definition get_user :: "int \<Rightarrow> engine \<Rightarrow> (error + User) \<times> engine" where
  "get_user user_id db = (one (select_where_id user_id db), db)"

definition update_user ::
  "int \<Rightarrow> string option \<Rightarrow> string option \<Rightarrow> engine \<Rightarrow> (error + User) \<times> engine" where
  "update_user user_id uname mail db =
     (let user = session_get db user_id in
      case (if truthy uname then set_username user (the uname) else Inr user) of
        Inl ex \<Rightarrow> (Inl ex, db)
      | Inr user1 \<Rightarrow>
          (case (if truthy mail then set_email user1 (the mail) else Inr user1) of
             Inl ex \<Rightarrow> (Inl ex, db)
           | Inr user2 \<Rightarrow>
               (case session_add user2 of
                  Inl ex \<Rightarrow> (Inl ex, db)
                | Inr u \<Rightarrow>
                    (case commit_add u db of (k, db') \<Rightarrow>
                       (case session_refresh k db' of
                          Inl ex \<Rightarrow> (Inl ex, db')
                        | Inr u' \<Rightarrow> (Inr u', db'))))))"

definition delete_user :: "int \<Rightarrow> engine \<Rightarrow> (error + unit) \<times> engine" where
  "delete_user user_id db =
     (let user = session_get db user_id in
      case session_delete user of
        Inl ex \<Rightarrow> (Inl ex, db)
      | Inr k \<Rightarrow> (Inr (), delete_row k db))"

section \<open>Identifiers as Python passes them\<close>

text \<open>
  \<open>get_user\<close>, \<open>update_user\<close> and \<open>delete_user\<close> above take the identifier as the
  statement receives it. Python hands them an unbounded \<open>int\<close> (the route converter
  \<open><int:user_id>\<close> of app.py has no upper bound), and the first thing each of them does
  with it is a \<open>SELECT\<close> with the identifier as parameter. The sqlite3 driver converts the
  parameter to the store's \<open>INTEGER\<close>, a signed 64-bit integer, and raises
  \<open>OverflowError\<close> when it does not fit. That happens before the statement runs and
  before anything is written, so the call as Python makes it is the conversion followed by
  the function.
\<close>

definition sqlite_integer :: "int \<Rightarrow> bool" where
  "sqlite_integer k = (- (2 ^ 63) \<le> k \<and> k < 2 ^ 63)"

definition bind_parameter :: "int \<Rightarrow> error + int" where
  "bind_parameter k = (if sqlite_integer k then Inr k else Inl OverflowError)"

definition with_bound_id ::
  "(int \<Rightarrow> engine \<Rightarrow> (error + 'a) \<times> engine) \<Rightarrow> int \<Rightarrow> engine \<Rightarrow> (error + 'a) \<times> engine" where
  "with_bound_id f user_id db =
     (case bind_parameter user_id of
        Inl ex \<Rightarrow> (Inl ex, db)
      | Inr k \<Rightarrow> f k db)"

section \<open>Histories of calls\<close>

text \<open>
  The routes of app.py call the four functions one after the other on the same engine. A
  history is the list of those calls; running it from the empty table gives the table
  reached and the identifiers that \<open>create_user\<close> has returned so far.
\<close>

datatype call =
    Create string string
  | Read int
  | Update int "string option" "string option"
  | Delete int

fun step :: "call \<Rightarrow> engine \<times> int list \<Rightarrow> engine \<times> int list" where
  "step (Create n e) (db, ids) =
     (case create_user n e db of
        (Inr u, db') \<Rightarrow> (db', (case id' u of None \<Rightarrow> ids | Some k \<Rightarrow> k # ids))
      | (Inl ex, db') \<Rightarrow> (db', ids))"
| "step (Read k) (db, ids) = (snd (with_bound_id get_user k db), ids)"
| "step (Update k un em) (db, ids) =
     (snd (with_bound_id (\<lambda>j. update_user j un em) k db), ids)"
| "step (Delete k) (db, ids) = (snd (with_bound_id delete_user k db), ids)"

definition run :: "call list \<Rightarrow> engine \<times> int list" where
  "run cs = fold step cs ([], [])"

section \<open>Facts about the store\<close>

lemma fold_max_ge: "(k::int) \<le> fold max ks k"
  by (induction ks arbitrary: k) (auto intro: order_trans [OF max.cobounded2])

lemma fold_max_upper: "j \<in> set ks \<Longrightarrow> (j::int) \<le> fold max ks k"
proof (induction ks arbitrary: k)
  case Nil
  then show ?case by simp
next
  case (Cons a ks)
  show ?case
  proof (cases "j = a")
    case True
    have "a \<le> max a k" by simp
    also have "\<dots> \<le> fold max ks (max a k)" by (rule fold_max_ge)
    finally show ?thesis using True by simp
  next
    case False
    with Cons.prems have "j \<in> set ks" by simp
    then show ?thesis using Cons.IH by simp
  qed
qed

lemma keys_lt_next_rowid: "j \<in> set (keys db) \<Longrightarrow> j < next_rowid db"
proof (cases "keys db")
  case Nil
  assume "j \<in> set (keys db)"
  with Nil show ?thesis by simp
next
  case (Cons k ks)
  assume "j \<in> set (keys db)"
  with Cons have "j = k \<or> j \<in> set ks" by simp
  then have "j \<le> fold max ks k"
    using fold_max_ge [of k ks] fold_max_upper [of j ks k] by blast
  with Cons show ?thesis by (simp add: next_rowid_def)
qed

lemma next_rowid_fresh: "next_rowid db \<notin> set (keys db)"
  using keys_lt_next_rowid [of "next_rowid db" db] by blast

lemma filter_key_absent: "k \<notin> set (keys db) \<Longrightarrow> filter (\<lambda>r. row_id r = k) db = []"
  by (induction db) (auto simp: keys_def)

lemma select_absent: "k \<notin> set (keys db) \<Longrightarrow> select_where_id k db = []"
  by (simp add: select_where_id_def filter_key_absent)

lemma select_present: "k \<in> set (keys db) \<Longrightarrow> select_where_id k db \<noteq> []"
  by (induction db) (auto simp: keys_def select_where_id_def)

lemma session_get_None_iff: "session_get db k = None \<longleftrightarrow> k \<notin> set (keys db)"
proof (cases "k \<in> set (keys db)")
  case True
  then have "select_where_id k db \<noteq> []" by (rule select_present)
  with True show ?thesis by (simp add: session_get_def split: list.splits)
next
  case False
  then have "select_where_id k db = []" by (rule select_absent)
  with False show ?thesis by (simp add: session_get_def)
qed

lemma session_get_id: "session_get db k = Some u \<Longrightarrow> id' u = Some k"
  by (induction db)
     (auto simp: session_get_def select_where_id_def load_def row_id_def
           split: list.splits if_splits prod.splits)

lemma select_inserted:
  "k \<notin> set (keys db) \<Longrightarrow> select_where_id k (db @ [(k, n, e)]) = [\<lparr>id' = Some k, username = n, email = e\<rparr>]"
proof -
  assume "k \<notin> set (keys db)"
  then have "filter (\<lambda>r. row_id r = k) db = []" by (rule filter_key_absent)
  moreover have "row_id (k, n, e) = k" by (simp add: row_id_def)
  ultimately show ?thesis by (simp add: select_where_id_def load_def)
qed

lemma create_user_eq:
  "create_user n e db =
     (Inr \<lparr>id' = Some (next_rowid db), username = n, email = e\<rparr>,
      db @ [(next_rowid db, n, e)])"
  by (simp add: create_user_def session_add_def commit_add_def insert_row_def Let_def
                session_refresh_def select_inserted [OF next_rowid_fresh])

lemma keys_update_row: "keys (update_row k n e db) = keys db"
  by (induction db) (auto simp: keys_def update_row_def row_id_def)

lemma length_update_row: "length (update_row k n e db) = length db"
  by (simp add: update_row_def)

lemma update_row_other:
  "i < length db \<Longrightarrow> row_id (db ! i) \<noteq> k \<Longrightarrow> update_row k n e db ! i = db ! i"
  by (simp add: update_row_def)

lemma select_update_row_same:
  "k \<in> set (keys db) \<Longrightarrow>
   \<exists>us. select_where_id k (update_row k n e db) = \<lparr>id' = Some k, username = n, email = e\<rparr> # us"
  by (induction db)
     (auto simp: keys_def select_where_id_def update_row_def load_def row_id_def)

lemma session_get_update_row:
  "k \<in> set (keys db) \<Longrightarrow>
   session_get (update_row k n e db) k = Some \<lparr>id' = Some k, username = n, email = e\<rparr>"
  using select_update_row_same [of k db n e] by (auto simp: session_get_def)

lemma session_refresh_update_row:
  "k \<in> set (keys db) \<Longrightarrow>
   session_refresh k (update_row k n e db) = Inr \<lparr>id' = Some k, username = n, email = e\<rparr>"
  using select_update_row_same [of k db n e] by (auto simp: session_refresh_def)

lemma session_get_row:
  "session_get db k = Some u \<Longrightarrow> (k, username u, email u) \<in> set db"
  by (induction db)
     (auto simp: session_get_def select_where_id_def load_def row_id_def
           split: list.splits if_splits prod.splits)

lemma pk_unique_row_eq:
  "pk_unique db \<Longrightarrow> (k, n, e) \<in> set db \<Longrightarrow> r \<in> set db \<Longrightarrow> row_id r = k \<Longrightarrow> r = (k, n, e)"
proof (induction db)
  case Nil
  then show ?case by simp
next
  case (Cons a db)
  have tl: "pk_unique db" using Cons.prems(1) by (simp add: pk_unique_def keys_def)
  have fresh: "row_id a \<notin> set (keys db)"
    using Cons.prems(1) by (simp add: pk_unique_def keys_def)
  have mem: "x \<in> set db \<Longrightarrow> row_id x \<in> set (keys db)" for x
    by (simp add: keys_def)
  show ?case
  proof (cases "r = a")
    case ra: True
    show ?thesis
    proof (cases "(k, n, e) = a")
      case True
      with ra show ?thesis by simp
    next
      case False
      with Cons.prems(2) have "(k, n, e) \<in> set db" by auto
      then have "row_id (k, n, e) \<in> set (keys db)" by (rule mem)
      then have "k \<in> set (keys db)" by (simp add: row_id_def)
      with fresh ra Cons.prems(4) show ?thesis by simp
    qed
  next
    case rna: False
    with Cons.prems(3) have rin: "r \<in> set db" by auto
    show ?thesis
    proof (cases "(k, n, e) = a")
      case True
      from rin have "row_id r \<in> set (keys db)" by (rule mem)
      with fresh True Cons.prems(4) show ?thesis by (auto simp: row_id_def)
    next
      case False
      with Cons.prems(2) have "(k, n, e) \<in> set db" by auto
      then show ?thesis using Cons.IH tl rin Cons.prems(4) by blast
    qed
  qed
qed

lemma update_row_same:
  assumes "pk_unique db" and "session_get db k = Some u"
  shows "update_row k (username u) (email u) db = db"
proof -
  have row: "(k, username u, email u) \<in> set db"
    using assms(2) by (rule session_get_row)
  have "map (\<lambda>r. if row_id r = k then (k, username u, email u) else r) db = map (\<lambda>r. r) db"
    by (rule map_cong [OF refl]) (use pk_unique_row_eq [OF assms(1) row] in auto)
  then show ?thesis by (simp add: update_row_def)
qed

lemma keys_delete_row: "keys (delete_row k db) = removeAll k (keys db)"
  by (induction db) (auto simp: keys_def delete_row_def)

lemma select_delete_row: "select_where_id k (delete_row k db) = []"
  by (rule select_absent) (simp add: keys_delete_row)

section \<open>Facts about the data-access functions\<close>

lemma update_user_missing:
  "k \<notin> set (keys db) \<Longrightarrow>
   update_user k un em db =
     (Inl (if truthy un \<or> truthy em then AttributeError else UnmappedInstanceError), db)"
proof -
  assume "k \<notin> set (keys db)"
  then have "session_get db k = None" by (simp add: session_get_None_iff)
  then show ?thesis
    by (simp add: update_user_def set_username_def set_email_def session_add_def)
qed

lemma delete_user_missing:
  "k \<notin> set (keys db) \<Longrightarrow> delete_user k db = (Inl UnmappedInstanceError, db)"
proof -
  assume "k \<notin> set (keys db)"
  then have "session_get db k = None" by (simp add: session_get_None_iff)
  then show ?thesis by (simp add: delete_user_def session_delete_def)
qed

lemma update_user_present:
  assumes "session_get db k = Some u"
    and "n' = (if truthy un then the un else username u)"
    and "e' = (if truthy em then the em else email u)"
  shows "update_user k un em db =
           (Inr \<lparr>id' = Some k, username = n', email = e'\<rparr>, update_row k n' e' db)"
proof -
  have idk: "id' u = Some k" using assms(1) by (rule session_get_id)
  have "session_get db k \<noteq> None" using assms(1) by simp
  then have kin: "k \<in> set (keys db)" by (simp add: session_get_None_iff)
  show ?thesis
    using assms idk session_refresh_update_row [OF kin]
    by (simp add: update_user_def set_username_def set_email_def session_add_def
                  commit_add_def)
qed

lemma delete_user_present:
  assumes "k \<in> set (keys db)"
  shows "delete_user k db = (Inr (), delete_row k db)"
proof -
  from assms have "session_get db k \<noteq> None" by (simp add: session_get_None_iff)
  then obtain u where u: "session_get db k = Some u" by auto
  then have "id' u = Some k" by (rule session_get_id)
  with u show ?thesis by (simp add: delete_user_def session_delete_def)
qed

lemma keys_update_user: "keys (snd (update_user k un em db)) = keys db"
proof (cases "session_get db k")
  case None
  then have "k \<notin> set (keys db)" by (simp add: session_get_None_iff)
  then show ?thesis by (simp add: update_user_missing)
next
  case (Some u)
  then show ?thesis by (simp add: update_user_present keys_update_row)
qed

lemma keys_delete_user: "keys (snd (delete_user k db)) = removeAll k (keys db)"
proof (cases "k \<in> set (keys db)")
  case True
  then show ?thesis by (simp add: delete_user_present keys_delete_row)
next
  case False
  then show ?thesis by (simp add: delete_user_missing)
qed

lemma keys_append_row: "keys (db @ [(k, n, e)]) = keys db @ [k]"
  by (simp add: keys_def row_id_def)

lemma pk_unique_create: "pk_unique db \<Longrightarrow> pk_unique (snd (create_user n e db))"
  using next_rowid_fresh [of db]
  by (simp add: create_user_eq pk_unique_def keys_append_row)

lemma pk_unique_update: "pk_unique db \<Longrightarrow> pk_unique (snd (update_user k un em db))"
  by (simp add: pk_unique_def keys_update_user)

lemma pk_unique_delete: "pk_unique db \<Longrightarrow> pk_unique (snd (delete_user k db))"
  by (simp add: pk_unique_def keys_delete_user distinct_removeAll)

lemma with_bound_id_in_range:
  "sqlite_integer k \<Longrightarrow> with_bound_id f k db = f k db"
  by (simp add: with_bound_id_def bind_parameter_def)

lemma with_bound_id_overflow:
  "\<not> sqlite_integer k \<Longrightarrow> with_bound_id f k db = (Inl OverflowError, db)"
  by (simp add: with_bound_id_def bind_parameter_def)

lemma snd_with_bound_id:
  "snd (with_bound_id f k db) = (if sqlite_integer k then snd (f k db) else db)"
  by (simp add: with_bound_id_in_range with_bound_id_overflow)

lemma get_user_absent:
  "k \<notin> set (keys db) \<Longrightarrow> get_user k db = (Inl NoResultFound, db)"
  by (simp add: get_user_def one_def select_absent)

lemma reach_step:
  assumes "pk_unique (fst s)" and "set (keys (fst s)) \<subseteq> set (snd s)"
  shows "pk_unique (fst (step c s)) \<and> set (keys (fst (step c s))) \<subseteq> set (snd (step c s))"
proof (cases s)
  case (Pair db ids)
  with assms have pk: "pk_unique db" and sub: "set (keys db) \<subseteq> set ids"
    by simp_all
  show ?thesis
  proof (cases c)
    case (Create n e)
    have "pk_unique (snd (create_user n e db))" using pk by (rule pk_unique_create)
    then show ?thesis
      using Pair Create sub by (auto simp: create_user_eq keys_append_row)
  next
    case (Read k)
    with Pair pk sub show ?thesis by (simp add: snd_with_bound_id get_user_def)
  next
    case (Update k un em)
    with Pair pk_unique_update [OF pk, of k un em] pk sub show ?thesis
      by (simp add: snd_with_bound_id keys_update_user)
  next
    case (Delete k)
    with Pair pk_unique_delete [OF pk, of k] pk sub show ?thesis
      by (auto simp: snd_with_bound_id keys_delete_user)
  qed
qed

lemma reach_fold:
  "pk_unique (fst s) \<Longrightarrow> set (keys (fst s)) \<subseteq> set (snd s) \<Longrightarrow>
   pk_unique (fst (fold step cs s)) \<and> set (keys (fst (fold step cs s))) \<subseteq> set (snd (fold step cs s))"
proof (induction cs arbitrary: s)
  case Nil
  then show ?case by simp
next
  case (Cons c cs)
  have "pk_unique (fst (step c s)) \<and> set (keys (fst (step c s))) \<subseteq> set (snd (step c s))"
    using Cons.prems by (rule reach_step)
  then show ?case using Cons.IH [of "step c s"] by simp
qed

lemma reach_run:
  "pk_unique (fst (run cs)) \<and> set (keys (fst (run cs))) \<subseteq> set (snd (run cs))"
  unfolding run_def by (rule reach_fold) (simp_all add: pk_unique_def keys_def)

section \<open>The claims\<close>

text \<open>
  C1. For every username, every email and every table, \<open>create_user\<close> returns a
  \<open>User\<close> carrying an identifier, and \<open>get_user\<close> on that identifier in the resulting table
  returns the \<open>User\<close> with that identifier and exactly that username and email.
\<close>

theorem create_then_read:
  "\<exists>k u db'. create_user n e db = (Inr u, db') \<and> id' u = Some k \<and>
     get_user k db' = (Inr \<lparr>id' = Some k, username = n, email = e\<rparr>, db')"
proof -
  let ?k = "next_rowid db"
  let ?db' = "db @ [(?k, n, e)]"
  have "select_where_id ?k ?db' = [\<lparr>id' = Some ?k, username = n, email = e\<rparr>]"
    by (rule select_inserted) (rule next_rowid_fresh)
  then have "get_user ?k ?db' = (Inr \<lparr>id' = Some ?k, username = n, email = e\<rparr>, ?db')"
    by (simp add: get_user_def one_def)
  then show ?thesis by (simp add: create_user_eq)
qed

text \<open>
  C2. On a table with unique primary keys and an identifier whose row exists,
  \<open>update_user\<close> succeeds and stores what it returns; a field takes the replacement value
  when that value is a non-empty string and keeps its old value otherwise. With both
  replacements falsy the returned \<open>User\<close> and the table are the old ones, and an empty
  string as replacement leaves the field at its old value.
\<close>

theorem update_truthy_policy:
  assumes "pk_unique db" and "session_get db k = Some u"
  shows "\<exists>u' db'. update_user k un em db = (Inr u', db') \<and>
           session_get db' k = Some u' \<and>
           id' u' = Some k \<and>
           username u' = (case un of None \<Rightarrow> username u
                          | Some v \<Rightarrow> if v = [] then username u else v) \<and>
           email u' = (case em of None \<Rightarrow> email u
                       | Some v \<Rightarrow> if v = [] then email u else v) \<and>
           (\<not> truthy un \<and> \<not> truthy em \<longrightarrow> u' = u \<and> db' = db) \<and>
           (un = Some [] \<longrightarrow> username u' = username u) \<and>
           (em = Some [] \<longrightarrow> email u' = email u)"
proof -
  define n' where "n' = (if truthy un then the un else username u)"
  define e' where "e' = (if truthy em then the em else email u)"
  let ?u' = "\<lparr>id' = Some k, username = n', email = e'\<rparr>"
  let ?db' = "update_row k n' e' db"
  have idk: "id' u = Some k" using assms(2) by (rule session_get_id)
  have "session_get db k \<noteq> None" using assms(2) by simp
  then have kin: "k \<in> set (keys db)" by (simp add: session_get_None_iff)
  have run: "update_user k un em db = (Inr ?u', ?db')"
    using assms(2) n'_def e'_def by (rule update_user_present)
  have get: "session_get ?db' k = Some ?u'"
    using kin by (rule session_get_update_row)
  have nm: "n' = (case un of None \<Rightarrow> username u | Some v \<Rightarrow> if v = [] then username u else v)"
    by (cases un) (simp_all add: n'_def)
  have ml: "e' = (case em of None \<Rightarrow> email u | Some v \<Rightarrow> if v = [] then email u else v)"
    by (cases em) (simp_all add: e'_def)
  have same: "?u' = u \<and> ?db' = db" if "\<not> truthy un" and "\<not> truthy em"
  proof -
    from that have "n' = username u" and "e' = email u" by (simp_all add: n'_def e'_def)
    then show ?thesis using idk update_row_same [OF assms] by simp
  qed
  have empty_n: "n' = username u" if "un = Some []" using that by (simp add: n'_def)
  have empty_e: "e' = email u" if "em = Some []" using that by (simp add: e'_def)
  show ?thesis
  proof (intro exI conjI)
    show "update_user k un em db = (Inr ?u', ?db')" by (rule run)
    show "session_get ?db' k = Some ?u'" by (rule get)
    show "id' ?u' = Some k" by simp
    show "username ?u' = (case un of None \<Rightarrow> username u
                          | Some v \<Rightarrow> if v = [] then username u else v)"
      using nm by simp
    show "email ?u' = (case em of None \<Rightarrow> email u
                       | Some v \<Rightarrow> if v = [] then email u else v)"
      using ml by simp
    show "\<not> truthy un \<and> \<not> truthy em \<longrightarrow> ?u' = u \<and> ?db' = db"
      using same by blast
    show "un = Some [] \<longrightarrow> username ?u' = username u" using empty_n by simp
    show "em = Some [] \<longrightarrow> email ?u' = email u" using empty_e by simp
  qed
qed

text \<open>The policy at a concrete table: two empty strings as replacements change nothing.\<close>

theorem update_truthy_policy_witness:
  "pk_unique [(1, ''alice'', ''a@x.com'')] \<and>
   session_get [(1, ''alice'', ''a@x.com'')] 1 =
     Some \<lparr>id' = Some 1, username = ''alice'', email = ''a@x.com''\<rparr> \<and>
   update_user 1 (Some []) (Some []) [(1, ''alice'', ''a@x.com'')] =
     (Inr \<lparr>id' = Some 1, username = ''alice'', email = ''a@x.com''\<rparr>,
      [(1, ''alice'', ''a@x.com'')])"
proof -
  let ?db = "[(1, ''alice'', ''a@x.com'')] :: engine"
  let ?u = "\<lparr>id' = Some 1, username = ''alice'', email = ''a@x.com''\<rparr>"
  have h1: "pk_unique ?db" by (simp add: pk_unique_def keys_def)
  have h2: "session_get ?db 1 = Some ?u"
    by (simp add: session_get_def select_where_id_def row_id_def load_def)
  from update_truthy_policy [OF h1 h2, of "Some []" "Some []"]
  obtain u' db' where run: "update_user 1 (Some []) (Some []) ?db = (Inr u', db')"
    and same: "\<not> truthy (Some []) \<and> \<not> truthy (Some []) \<longrightarrow> u' = ?u \<and> db' = ?db"
    by blast
  from same have "u' = ?u" and "db' = ?db" by simp_all
  with run h1 h2 show ?thesis by simp
qed

text \<open>
  C3. When the identifier fits the store's signed 64-bit integer and no row has it, the
  call of \<open>get_user\<close> raises \<open>NoResultFound\<close>: it does not return an empty or null
  result. In particular this holds, in the table reached by any history of calls from the
  empty table, for every such identifier that \<open>create_user\<close> has not returned in that
  history.
\<close>

theorem read_missing_not_found:
  "(sqlite_integer k \<and> k \<notin> set (keys db) \<longrightarrow>
      with_bound_id get_user k db = (Inl NoResultFound, db)) \<and>
   (sqlite_integer k \<and> k \<notin> set (snd (run cs)) \<longrightarrow>
      with_bound_id get_user k (fst (run cs)) = (Inl NoResultFound, fst (run cs)))"
proof -
  have absent: "with_bound_id get_user k d = (Inl NoResultFound, d)"
    if "sqlite_integer k" and "k \<notin> set (keys d)" for d
    using that by (simp add: with_bound_id_in_range get_user_absent)
  have "with_bound_id get_user k (fst (run cs)) = (Inl NoResultFound, fst (run cs))"
    if "sqlite_integer k" and "k \<notin> set (snd (run cs))"
  proof -
    from that(2) reach_run [of cs] have "k \<notin> set (keys (fst (run cs)))" by blast
    with that(1) show ?thesis by (rule absent)
  qed
  with absent [of db] show ?thesis by blast
qed

text \<open>Identifier 2 on a table holding row 1, and after a history with one creation.\<close>

theorem read_missing_not_found_witness:
  "sqlite_integer 2 \<and>
   2 \<notin> set (keys [(1, ''alice'', ''a@x.com'')]) \<and>
   with_bound_id get_user 2 [(1, ''alice'', ''a@x.com'')] =
     (Inl NoResultFound, [(1, ''alice'', ''a@x.com'')]) \<and>
   2 \<notin> set (snd (run [Create ''alice'' ''a@x.com''])) \<and>
   with_bound_id get_user 2 (fst (run [Create ''alice'' ''a@x.com''])) =
     (Inl NoResultFound, fst (run [Create ''alice'' ''a@x.com'']))"
proof -
  have h0: "sqlite_integer 2" by (simp add: sqlite_integer_def)
  have h1: "2 \<notin> set (keys [(1, ''alice'', ''a@x.com'')])"
    by (simp add: keys_def row_id_def)
  have h2: "2 \<notin> set (snd (run [Create ''alice'' ''a@x.com'']))"
    by (simp add: run_def create_user_eq next_rowid_def keys_def)
  from read_missing_not_found [of 2 "[(1, ''alice'', ''a@x.com'')]" "[Create ''alice'' ''a@x.com'']"]
    h0 h1 h2
  show ?thesis by blast
qed

text \<open>
  The identifier \<open>2 ^ 63\<close>, which no row has and which \<open>create_user\<close> has not returned:
  the call raises \<open>OverflowError\<close>, not \<open>NoResultFound\<close>.
\<close>

theorem read_out_of_range_counterexample:
  "9223372036854775808 \<notin> set (keys [(1, ''alice'', ''a@x.com'')]) \<and>
   9223372036854775808 \<notin> set (snd (run [Create ''alice'' ''a@x.com''])) \<and>
   with_bound_id get_user 9223372036854775808 [(1, ''alice'', ''a@x.com'')] =
     (Inl OverflowError, [(1, ''alice'', ''a@x.com'')]) \<and>
   fst (with_bound_id get_user 9223372036854775808 [(1, ''alice'', ''a@x.com'')]) \<noteq>
     Inl NoResultFound \<and>
   fst (with_bound_id get_user 9223372036854775808 (fst (run [Create ''alice'' ''a@x.com'']))) \<noteq>
     Inl NoResultFound"
proof -
  have big: "\<not> sqlite_integer 9223372036854775808" by (simp add: sqlite_integer_def)
  have h1: "9223372036854775808 \<notin> set (keys [(1, ''alice'', ''a@x.com'')])"
    by (simp add: keys_def row_id_def)
  have h2: "9223372036854775808 \<notin> set (snd (run [Create ''alice'' ''a@x.com'']))"
    by (simp add: run_def create_user_eq next_rowid_def keys_def)
  from big h1 h2 show ?thesis by (simp add: with_bound_id_overflow)
qed

text \<open>
  C4. On the table holding only row 1, \<open>update_user\<close> on identifier 7 raises
  \<open>AttributeError\<close> when a replacement is truthy and \<open>UnmappedInstanceError\<close> when both
  are empty, whereas \<open>get_user\<close> on the same identifier raises \<open>NoResultFound\<close>.
\<close>

theorem update_missing_id_error_kind:
  "update_user 7 (Some ''bob'') (Some '''') [(1, ''alice'', ''a@x.com'')] =
     (Inl AttributeError, [(1, ''alice'', ''a@x.com'')]) \<and>
   update_user 7 (Some '''') (Some '''') [(1, ''alice'', ''a@x.com'')] =
     (Inl UnmappedInstanceError, [(1, ''alice'', ''a@x.com'')]) \<and>
   get_user 7 [(1, ''alice'', ''a@x.com'')] =
     (Inl NoResultFound, [(1, ''alice'', ''a@x.com'')])"
  by (simp add: update_user_def get_user_def one_def session_get_def select_where_id_def
                row_id_def set_username_def set_email_def session_add_def)

text \<open>
  C5. On the table holding only row 1, \<open>delete_user\<close> on identifier 7 raises
  \<open>UnmappedInstanceError\<close>, whereas \<open>get_user\<close> on the same identifier raises
  \<open>NoResultFound\<close>.
\<close>

theorem delete_missing_id_error_kind:
  "delete_user 7 [(1, ''alice'', ''a@x.com'')] =
     (Inl UnmappedInstanceError, [(1, ''alice'', ''a@x.com'')]) \<and>
   get_user 7 [(1, ''alice'', ''a@x.com'')] =
     (Inl NoResultFound, [(1, ''alice'', ''a@x.com'')])"
  by (simp add: delete_user_def get_user_def one_def session_get_def select_where_id_def
                row_id_def session_delete_def)

text \<open>
  C6. When a row has the identifier, \<open>delete_user\<close> succeeds and returns no value,
  the identifier is no longer a key of the resulting table, and \<open>get_user\<close> on it there
  raises \<open>NoResultFound\<close>.
\<close>

theorem delete_then_read_not_found:
  assumes "k \<in> set (keys db)"
  shows "\<exists>db'. delete_user k db = (Inr (), db') \<and>
           get_user k db' = (Inl NoResultFound, db') \<and>
           k \<notin> set (keys db')"
proof (intro exI conjI)
  show "delete_user k db = (Inr (), delete_row k db)"
    using assms by (rule delete_user_present)
  show "get_user k (delete_row k db) = (Inl NoResultFound, delete_row k db)"
    by (simp add: get_user_def one_def select_delete_row)
  show "k \<notin> set (keys (delete_row k db))" by (simp add: keys_delete_row)
qed

text \<open>Deleting row 1 of a table with two rows.\<close>

theorem delete_then_read_not_found_witness:
  "1 \<in> set (keys [(1, ''alice'', ''a@x.com''), (2, ''bob'', ''b@x.com'')]) \<and>
   (\<exists>db'. delete_user 1 [(1, ''alice'', ''a@x.com''), (2, ''bob'', ''b@x.com'')] = (Inr (), db') \<and>
      get_user 1 db' = (Inl NoResultFound, db') \<and> 1 \<notin> set (keys db'))"
proof -
  have h: "1 \<in> set (keys [(1, ''alice'', ''a@x.com''), (2, ''bob'', ''b@x.com'')])"
    by (simp add: keys_def row_id_def)
  from delete_then_read_not_found [OF h] h show ?thesis by blast
qed

text \<open>
  C7. When a row has the identifier and exactly one replacement is truthy,
  \<open>update_user\<close> returns and stores the old \<open>User\<close> with only that field replaced; the
  table keeps its length, and every row with another identifier is unchanged at its
  position.
\<close>

theorem update_one_field_frame:
  assumes "session_get db k = Some u" and "v \<noteq> []"
  shows "(\<not> truthy un \<longrightarrow>
            (\<exists>db'. update_user k un (Some v) db = (Inr (u\<lparr>email := v\<rparr>), db') \<and>
               session_get db' k = Some (u\<lparr>email := v\<rparr>) \<and>
               length db' = length db \<and>
               (\<forall>i<length db. row_id (db ! i) \<noteq> k \<longrightarrow> db' ! i = db ! i))) \<and>
         (\<not> truthy em \<longrightarrow>
            (\<exists>db'. update_user k (Some v) em db = (Inr (u\<lparr>username := v\<rparr>), db') \<and>
               session_get db' k = Some (u\<lparr>username := v\<rparr>) \<and>
               length db' = length db \<and>
               (\<forall>i<length db. row_id (db ! i) \<noteq> k \<longrightarrow> db' ! i = db ! i)))"
proof -
  have idk: "id' u = Some k" using assms(1) by (rule session_get_id)
  have "session_get db k \<noteq> None" using assms(1) by simp
  then have kin: "k \<in> set (keys db)" by (simp add: session_get_None_iff)
  have frame: "length (update_row k n e db) = length db \<and>
        (\<forall>i<length db. row_id (db ! i) \<noteq> k \<longrightarrow> update_row k n e db ! i = db ! i)" for n e
    by (simp add: length_update_row update_row_other)
  have mail: "\<exists>db'. update_user k un (Some v) db = (Inr (u\<lparr>email := v\<rparr>), db') \<and>
               session_get db' k = Some (u\<lparr>email := v\<rparr>) \<and>
               length db' = length db \<and>
               (\<forall>i<length db. row_id (db ! i) \<noteq> k \<longrightarrow> db' ! i = db ! i)"
    if "\<not> truthy un"
  proof -
    have obj: "u\<lparr>email := v\<rparr> = \<lparr>id' = Some k, username = username u, email = v\<rparr>"
      using idk by simp
    have "update_user k un (Some v) db =
            (Inr \<lparr>id' = Some k, username = username u, email = v\<rparr>,
             update_row k (username u) v db)"
      using assms(1) by (rule update_user_present) (use that assms(2) in simp_all)
    then show ?thesis
      using obj session_get_update_row [OF kin, of "username u" v] frame [of "username u" v]
      by simp
  qed
  have name: "\<exists>db'. update_user k (Some v) em db = (Inr (u\<lparr>username := v\<rparr>), db') \<and>
               session_get db' k = Some (u\<lparr>username := v\<rparr>) \<and>
               length db' = length db \<and>
               (\<forall>i<length db. row_id (db ! i) \<noteq> k \<longrightarrow> db' ! i = db ! i)"
    if "\<not> truthy em"
  proof -
    have obj: "u\<lparr>username := v\<rparr> = \<lparr>id' = Some k, username = v, email = email u\<rparr>"
      using idk by simp
    have "update_user k (Some v) em db =
            (Inr \<lparr>id' = Some k, username = v, email = email u\<rparr>,
             update_row k v (email u) db)"
      using assms(1) by (rule update_user_present) (use that assms(2) in simp_all)
    then show ?thesis
      using obj session_get_update_row [OF kin, of v "email u"] frame [of v "email u"]
      by simp
  qed
  from mail name show ?thesis by blast
qed

text \<open>Replacing only the email, or only the username, of row 1 leaves row 2 as it is.\<close>

theorem update_one_field_frame_witness:
  "session_get [(1, ''alice'', ''a@x.com''), (2, ''bob'', ''b@x.com'')] 1 =
     Some \<lparr>id' = Some 1, username = ''alice'', email = ''a@x.com''\<rparr> \<and>
   ''a2@x.com'' \<noteq> [] \<and> \<not> truthy None \<and>
   (\<exists>db'. update_user 1 None (Some ''a2@x.com'')
             [(1, ''alice'', ''a@x.com''), (2, ''bob'', ''b@x.com'')] =
             (Inr \<lparr>id' = Some 1, username = ''alice'', email = ''a2@x.com''\<rparr>, db') \<and>
          db' ! 1 = (2, ''bob'', ''b@x.com'')) \<and>
   (\<exists>db'. update_user 1 (Some ''a2@x.com'') None
             [(1, ''alice'', ''a@x.com''), (2, ''bob'', ''b@x.com'')] =
             (Inr \<lparr>id' = Some 1, username = ''a2@x.com'', email = ''a@x.com''\<rparr>, db') \<and>
          db' ! 1 = (2, ''bob'', ''b@x.com''))"
proof -
  let ?db = "[(1, ''alice'', ''a@x.com''), (2, ''bob'', ''b@x.com'')] :: engine"
  let ?u = "\<lparr>id' = Some 1, username = ''alice'', email = ''a@x.com''\<rparr>"
  have h1: "session_get ?db 1 = Some ?u"
    by (simp add: session_get_def select_where_id_def row_id_def load_def)
  have h2: "''a2@x.com'' \<noteq> []" by simp
  have h3: "\<not> truthy None" by simp
  have i1: "(1::nat) < length ?db" by simp
  have i2: "row_id (?db ! 1) \<noteq> 1" by (simp add: row_id_def)
  note inst = update_one_field_frame [OF h1 h2, of None None]
  from inst h3 obtain d1 where
    r1: "update_user 1 None (Some ''a2@x.com'') ?db = (Inr (?u\<lparr>email := ''a2@x.com''\<rparr>), d1)"
    and f1: "\<forall>i<length ?db. row_id (?db ! i) \<noteq> 1 \<longrightarrow> d1 ! i = ?db ! i"
    by blast
  from inst h3 obtain d2 where
    r2: "update_user 1 (Some ''a2@x.com'') None ?db = (Inr (?u\<lparr>username := ''a2@x.com''\<rparr>), d2)"
    and f2: "\<forall>i<length ?db. row_id (?db ! i) \<noteq> 1 \<longrightarrow> d2 ! i = ?db ! i"
    by blast
  from f1 i1 i2 have e1: "d1 ! 1 = ?db ! 1" by blast
  from f2 i1 i2 have e2: "d2 ! 1 = ?db ! 1" by blast
  from r1 e1 have c1: "\<exists>db'. update_user 1 None (Some ''a2@x.com'') ?db =
             (Inr \<lparr>id' = Some 1, username = ''alice'', email = ''a2@x.com''\<rparr>, db') \<and>
          db' ! 1 = (2, ''bob'', ''b@x.com'')"
    by simp
  from r2 e2 have c2: "\<exists>db'. update_user 1 (Some ''a2@x.com'') None ?db =
             (Inr \<lparr>id' = Some 1, username = ''a2@x.com'', email = ''a@x.com''\<rparr>, db') \<and>
          db' ! 1 = (2, ''bob'', ''b@x.com'')"
    by simp
  from h1 h2 h3 c1 c2 show ?thesis by blast
qed

text \<open>
  C8. For every username, email and table, \<open>create_user\<close> succeeds: it returns the
  \<open>User\<close> with those values and an identifier that no row had before, and appends that row.
  Creating the same pair again succeeds too, with a different identifier: an existing row
  with the same username and email does not make it fail.
\<close>

theorem create_succeeds_fresh_id:
  "\<exists>k k2. create_user n e db =
              (Inr \<lparr>id' = Some k, username = n, email = e\<rparr>, db @ [(k, n, e)]) \<and>
           k \<notin> set (keys db) \<and>
           create_user n e (db @ [(k, n, e)]) =
              (Inr \<lparr>id' = Some k2, username = n, email = e\<rparr>, db @ [(k, n, e), (k2, n, e)]) \<and>
           k2 \<noteq> k"
proof -
  let ?k = "next_rowid db"
  let ?db1 = "db @ [(?k, n, e)]"
  let ?k2 = "next_rowid ?db1"
  have "?k \<in> set (keys ?db1)" by (simp add: keys_append_row)
  then have "?k < ?k2" by (rule keys_lt_next_rowid)
  then have "?k2 \<noteq> ?k" by simp
  moreover have "create_user n e ?db1 =
      (Inr \<lparr>id' = Some ?k2, username = n, email = e\<rparr>, db @ [(?k, n, e), (?k2, n, e)])"
    by (simp add: create_user_eq)
  ultimately show ?thesis
    using create_user_eq [of n e db] next_rowid_fresh [of db] by blast
qed

text \<open>
  C9. \<open>update_user\<close> leaves the identifiers of the table as they are, position by
  position, and the \<open>User\<close> it returns carries the identifier it was called with;
  \<open>delete_user\<close> removes the identifier it was called with and nothing else, and every row
  it leaves is a row of the old table; \<open>create_user\<close> only appends a row; \<open>get_user\<close>
  leaves the table as it is.
\<close>

theorem surrogate_key_immutable:
  "keys (snd (update_user k un em db)) = keys db \<and>
   (\<forall>u'. fst (update_user k un em db) = Inr u' \<longrightarrow> id' u' = Some k) \<and>
   keys (snd (delete_user k db)) = removeAll k (keys db) \<and>
   set (snd (delete_user k db)) \<subseteq> set db \<and>
   (\<exists>r. snd (create_user n e db) = db @ [r]) \<and>
   snd (get_user k db) = db"
proof -
  have a: "keys (snd (update_user k un em db)) = keys db" by (rule keys_update_user)
  have b: "keys (snd (delete_user k db)) = removeAll k (keys db)" by (rule keys_delete_user)
  have c: "set (snd (delete_user k db)) \<subseteq> set db"
  proof (cases "k \<in> set (keys db)")
    case True
    then show ?thesis by (auto simp: delete_user_present delete_row_def)
  next
    case False
    then show ?thesis by (simp add: delete_user_missing)
  qed
  have d: "\<exists>r. snd (create_user n e db) = db @ [r]" by (simp add: create_user_eq)
  have e: "snd (get_user k db) = db" by (simp add: get_user_def)
  have f: "id' u' = Some k" if ok: "fst (update_user k un em db) = Inr u'" for u'
  proof (cases "session_get db k")
    case None
    then have "k \<notin> set (keys db)" by (simp add: session_get_None_iff)
    with ok show ?thesis by (simp add: update_user_missing)
  next
    case (Some u)
    from update_user_present [OF Some refl refl, of un em] ok show ?thesis by auto
  qed
  from a b c d e f show ?thesis by blast
qed

text \<open>A successful update of row 1 returns identifier 1.\<close>

theorem surrogate_key_immutable_witness:
  "fst (update_user 1 None (Some ''a2@x.com'') [(1, ''alice'', ''a@x.com'')]) =
     Inr \<lparr>id' = Some 1, username = ''alice'', email = ''a2@x.com''\<rparr> \<and>
   id' \<lparr>id' = Some 1, username = ''alice'', email = ''a2@x.com''\<rparr> = Some 1 \<and>
   keys (snd (update_user 1 None (Some ''a2@x.com'') [(1, ''alice'', ''a@x.com'')])) =
     keys [(1, ''alice'', ''a@x.com'')] \<and>
   set (snd (delete_user 1 [(1, ''alice'', ''a@x.com'')])) \<subseteq> set [(1, ''alice'', ''a@x.com'')]"
proof -
  let ?db = "[(1, ''alice'', ''a@x.com'')] :: engine"
  have get: "session_get ?db 1 = Some \<lparr>id' = Some 1, username = ''alice'', email = ''a@x.com''\<rparr>"
    by (simp add: session_get_def select_where_id_def row_id_def load_def)
  have h: "fst (update_user 1 None (Some ''a2@x.com'') ?db) =
             Inr \<lparr>id' = Some 1, username = ''alice'', email = ''a2@x.com''\<rparr>"
    by (simp add: update_user_present [OF get refl refl])
  from surrogate_key_immutable [of 1 None "Some ''a2@x.com''" ?db "[]" "[]"] h
  show ?thesis by simp
qed

text \<open>
  C10. When no row has the identifier, \<open>update_user\<close> and \<open>delete_user\<close> both raise
  an exception and the table afterwards is the table before the call.
\<close>

theorem missing_id_leaves_store_unchanged:
  assumes "k \<notin> set (keys db)"
  shows "(\<exists>ex. update_user k un em db = (Inl ex, db)) \<and>
         (\<exists>ex. delete_user k db = (Inl ex, db))"
  using assms by (simp add: update_user_missing delete_user_missing)

text \<open>Identifier 7 on a table holding only row 1.\<close>

theorem missing_id_leaves_store_unchanged_witness:
  "7 \<notin> set (keys [(1, ''alice'', ''a@x.com'')]) \<and>
   (\<exists>ex. update_user 7 (Some ''bob'') (Some []) [(1, ''alice'', ''a@x.com'')] =
            (Inl ex, [(1, ''alice'', ''a@x.com'')])) \<and>
   (\<exists>ex. delete_user 7 [(1, ''alice'', ''a@x.com'')] = (Inl ex, [(1, ''alice'', ''a@x.com'')]))"
proof -
  have h: "7 \<notin> set (keys [(1, ''alice'', ''a@x.com'')])"
    by (simp add: keys_def row_id_def)
  from missing_id_leaves_store_unchanged [OF h, of "Some ''bob''" "Some []"] h
  show ?thesis by blast
qed

end
